theory Spec2Isabelle
  imports Complex_Main "HOL-Library.Char_ord" "HOL-Library.List_Lexorder" "HOL-Library.Multiset"
begin

section \<open>The streaming event translator (\<open>event_stream\<close> in server.py)\<close>

subsection \<open>Runtime events as the code probes them\<close>

text \<open>
  The code reads the runtime's events by capability probing: \<open>hasattr(x, "f")\<close> followed
  by a truthiness test of \<open>x.f\<close>. An attribute is therefore either missing or holds a
  value, and the value may be Python's \<open>None\<close>.
\<close>

datatype 'a attr = Missing | Has 'a

record usage_metadata =
  prompt_token_count :: "int option attr"
  candidates_token_count :: "int option attr"

record function_call =
  fn_name :: "string option attr"
  fn_str :: string  \<comment> \<open>what \<open>str(fn)\<close> returns\<close>

record part =
  part_text :: "string option attr"
  part_function_call :: "function_call option attr"

text \<open>\<open>content.parts\<close> is a list of parts or \<open>None\<close>.\<close>

record content =
  role :: "string option"
  parts :: "part list option"

record raw_event =
  ev_usage_metadata :: "usage_metadata option attr"
  ev_content :: "content option attr"

text \<open>
  The events written to the client. Each is one \<open>data: {...}\<close> record of the stream; the
  model keeps the JSON object's fields. A tool name is \<open>None\<close> when \<open>fn.name\<close> is.
\<close>

datatype outbound =
    Session string
  | Text string
  | Tool "string option"
  | Error string
  | Done rat int int

text \<open>
  The feed returned by \<open>runner.run_async\<close>: the events it yields, then either its normal
  end or an instance of \<open>Exception\<close> raised from it, of which the code reads \<open>str(e)\<close>.
  The feed is taken to be finite and the client to read the stream to its end.
\<close>

datatype feed_end = StopAsyncIteration | Raises string

subsection \<open>The loop body\<close>

text \<open>\<open>v or 0\<close> on an optional integer.\<close>

fun or0 :: "int option \<Rightarrow> int" where
  "or0 None = 0"
| "or0 (Some v) = (if v = 0 then 0 else v)"

text \<open>Lines 160 to 165: the two counters, each overwritten when its attribute is there.\<close>

fun upd_input :: "int \<Rightarrow> raw_event \<Rightarrow> int" where
  "upd_input input_tokens event =
     (case ev_usage_metadata event of
        Missing \<Rightarrow> input_tokens
      | Has None \<Rightarrow> input_tokens
      | Has (Some usage) \<Rightarrow>
          (case prompt_token_count usage of
             Missing \<Rightarrow> input_tokens
           | Has v \<Rightarrow> or0 v))"

fun upd_output :: "int \<Rightarrow> raw_event \<Rightarrow> int" where
  "upd_output output_tokens event =
     (case ev_usage_metadata event of
        Missing \<Rightarrow> output_tokens
      | Has None \<Rightarrow> output_tokens
      | Has (Some usage) \<Rightarrow>
          (case candidates_token_count usage of
             Missing \<Rightarrow> output_tokens
           | Has v \<Rightarrow> or0 v))"

text \<open>
  Lines 167 to 170, the first pass over the parts: one \<open>text\<close> event for each part whose
  \<open>text\<close> attribute is there and truthy (neither \<open>None\<close> nor the empty string).
\<close>

fun text_parts :: "part list \<Rightarrow> outbound list" where
  "text_parts [] = []"
| "text_parts (p # ps) =
     (case part_text p of
        Has (Some t) \<Rightarrow> (if t \<noteq> [] then Text t # text_parts ps else text_parts ps)
      | _ \<Rightarrow> text_parts ps)"

text \<open>Line 176: \<open>fn.name if hasattr(fn, "name") else str(fn)\<close>.\<close>

fun tool_name :: "function_call \<Rightarrow> string option" where
  "tool_name fn = (case fn_name fn of Has n \<Rightarrow> n | Missing \<Rightarrow> Some (fn_str fn))"

text \<open>Lines 172 to 177, the second pass: one \<open>tool\<close> event for each function call.\<close>

fun tool_parts :: "part list \<Rightarrow> outbound list" where
  "tool_parts [] = []"
| "tool_parts (p # ps) =
     (case part_function_call p of
        Has (Some fn) \<Rightarrow> Tool (tool_name fn) # tool_parts ps
      | _ \<Rightarrow> tool_parts ps)"

text \<open>
  Each pass is guarded by \<open>hasattr(event, "content") and event.content\<close> and then iterates
  \<open>event.content.parts\<close>. Iterating \<open>None\<close> raises \<open>TypeError\<close>, which the handler
  of line 179 catches like any other exception; \<open>Inl\<close> carries its message.
\<close>

definition not_iterable :: string where
  "not_iterable = CHR 0x27 # ''NoneType'' @ CHR 0x27 # '' object is not iterable''"

fun over_parts :: "(part list \<Rightarrow> outbound list) \<Rightarrow> raw_event \<Rightarrow> string + outbound list" where
  "over_parts pass event =
     (case ev_content event of
        Missing \<Rightarrow> Inr []
      | Has None \<Rightarrow> Inr []
      | Has (Some c) \<Rightarrow>
          (case parts c of
             None \<Rightarrow> Inl not_iterable
           | Some ps \<Rightarrow> Inr (pass ps)))"

subsection \<open>The loop and the stream\<close>

text \<open>
  The \<open>try\<close> block of lines 154 to 180. The result is the events yielded inside it (the
  \<open>error\<close> event of the handler included) and the counters when it is left.
\<close>

fun run_feed :: "int \<Rightarrow> int \<Rightarrow> raw_event list \<Rightarrow> feed_end \<Rightarrow> outbound list \<times> int \<times> int" where
  "run_feed input_tokens output_tokens [] StopAsyncIteration = ([], input_tokens, output_tokens)"
| "run_feed input_tokens output_tokens [] (Raises e) = ([Error e], input_tokens, output_tokens)"
| "run_feed input_tokens output_tokens (event # rest) fin =
     (let input_tokens = upd_input input_tokens event;
          output_tokens = upd_output output_tokens event
      in case over_parts text_parts event of
           Inl e \<Rightarrow> ([Error e], input_tokens, output_tokens)
         | Inr texts \<Rightarrow>
             (case over_parts tool_parts event of
                Inl e \<Rightarrow> (texts @ [Error e], input_tokens, output_tokens)
              | Inr tools \<Rightarrow>
                  (case run_feed input_tokens output_tokens rest fin of
                     (out, fin_in, fin_out) \<Rightarrow> (texts @ tools @ out, fin_in, fin_out))))"

text \<open>
  \<open>round(duration, 2)\<close>. A float denotes a rational number; \<open>round\<close> rounds the number
  that \<open>duration\<close> denotes to the nearest hundredth, ties to the even one, and the
  \<open>done\<close> event prints that hundredth.
\<close>

definition round_half_even :: "rat \<Rightarrow> int" where
  "round_half_even q =
     (let f = \<lfloor>q\<rfloor>; r = q - of_int f
      in if r < 1 / 2 then f
         else if 1 / 2 < r then f + 1
         else if even f then f else f + 1)"

definition round2 :: "rat \<Rightarrow> rat" where
  "round2 d = of_int (round_half_even (d * 100)) / 100"

text \<open>
  \<open>event_stream\<close>, lines 147 to 183. \<open>duration\<close> is the float that line 182 computes,
  \<open>time.time() - start_time\<close> in floating point, given as the rational number that float
  denotes; the subtraction itself is the machine's and stays outside.
\<close>

definition event_stream ::
  "string \<Rightarrow> rat \<Rightarrow> raw_event list \<Rightarrow> feed_end \<Rightarrow> outbound list" where
  "event_stream session_id duration events fin =
     (case run_feed 0 0 events fin of
        (out, input_tokens, output_tokens) \<Rightarrow>
          Session session_id # out
            @ [Done (round2 duration) input_tokens output_tokens])"

section \<open>Python strings\<close>

text \<open>
  A \<open>char\<close> stands for one code point below 256 and a \<open>string\<close> for a Python \<open>str\<close> of
  such code points; strings are compared as Python compares them, code point by code
  point. \<open>isspace\<close>, \<open>strip\<close> and \<open>lower\<close> are Python's on that range.
\<close>

definition isspace :: "char \<Rightarrow> bool" where
  "isspace c =
     (let n = (of_char c :: nat)
      in (9 \<le> n \<and> n \<le> 13) \<or> (28 \<le> n \<and> n \<le> 32) \<or> n = 133 \<or> n = 160)"

definition strip :: "string \<Rightarrow> string" where
  "strip s = rev (dropWhile isspace (rev (dropWhile isspace s)))"

definition lower_char :: "char \<Rightarrow> char" where
  "lower_char c =
     (let n = (of_char c :: nat)
      in if (65 \<le> n \<and> n \<le> 90) \<or> (192 \<le> n \<and> n \<le> 214) \<or> (216 \<le> n \<and> n \<le> 222)
         then char_of (n + 32) else c)"

definition lower :: "string \<Rightarrow> string" where
  "lower s = map lower_char s"

definition startswith :: "string \<Rightarrow> string \<Rightarrow> bool" where
  "startswith s p = (take (length p) s = p)"

definition nl :: string where
  "nl = [CHR 0x0A]"

section \<open>Requests and errors\<close>

text \<open>
  A request is its headers and its JSON body, both dictionaries; the body's values are
  strings where a key is present. An exception leaving a handler is a value of
  \<open>error\<close>.
\<close>

record request =
  headers :: "string \<rightharpoonup> string"
  body :: "string \<rightharpoonup> string"

datatype error =
    HTTPException nat string
  | KeyError string

text \<open>\<open>_extract_token\<close>, lines 42 to 47.\<close>

definition extract_token :: "request \<Rightarrow> error + string" where
  "extract_token request =
     (let auth = (case headers request ''Authorization'' of None \<Rightarrow> [] | Some a \<Rightarrow> a)
      in if \<not> startswith auth ''Bearer ''
         then Inl (HTTPException 401 ''Missing or invalid Authorization header'')
         else Inr (drop 7 auth))"

section \<open>The discovery gateway (\<open>list_projects\<close>, \<open>list_datasets\<close>)\<close>

text \<open>
  The upstream reply: its status, its body as text, and the body parsed as JSON. The
  provider is a parameter of each handler, a function of what the code sends it.
\<close>

record 'a response =
  status_code :: nat
  resp_text :: string
  resp_json :: 'a

record project_json =
  projectId :: "string option"
  name :: "string option"
  projectNumber :: "string option"

record project =
  proj_id :: string
  proj_name :: string
  proj_number :: "string option"

text \<open>
  Line 73, one element of the comprehension: \<open>p["projectId"]\<close> raises \<open>KeyError\<close> when
  the key is absent, \<open>p.get("name", p["projectId"])\<close> falls back to the id.
\<close>

definition project_of :: "project_json \<Rightarrow> error + project" where
  "project_of p =
     (case projectId p of
        None \<Rightarrow> Inl (KeyError ''projectId'')
      | Some i \<Rightarrow>
          Inr \<lparr>proj_id = i,
               proj_name = (case name p of None \<Rightarrow> i | Some n \<Rightarrow> n),
               proj_number = projectNumber p\<rparr>)"

text \<open>A comprehension stops at the first element that raises.\<close>

fun comprehend :: "('a \<Rightarrow> error + 'b) \<Rightarrow> 'a list \<Rightarrow> error + 'b list" where
  "comprehend f [] = Inr []"
| "comprehend f (x # xs) =
     (case f x of
        Inl e \<Rightarrow> Inl e
      | Inr y \<Rightarrow> (case comprehend f xs of Inl e \<Rightarrow> Inl e | Inr ys \<Rightarrow> Inr (y # ys)))"

definition insufficient_scope :: string where
  "insufficient_scope =
     ''Token lacks project listing permissions. Ensure cloudresourcemanager.readonly scope.''"

text \<open>
  \<open>list_projects\<close>, lines 50 to 77. \<open>resp.json()\<close> is the dictionary's \<open>projects\<close> entry,
  \<open>None\<close> when the key is absent. \<open>list.sort(key=...)\<close> is stable, as \<open>sort_key\<close> is.
\<close>

definition list_projects ::
  "request \<Rightarrow> (string \<Rightarrow> project_json list option response) \<Rightarrow> error + project list" where
  "list_projects request cloudresourcemanager =
     (case extract_token request of
        Inl e \<Rightarrow> Inl e
      | Inr token \<Rightarrow>
          (let resp = cloudresourcemanager token
           in if status_code resp = 403 then Inl (HTTPException 403 insufficient_scope)
              else if status_code resp \<noteq> 200
                then Inl (HTTPException (status_code resp) (resp_text resp))
              else
                (case comprehend project_of
                        (case resp_json resp of None \<Rightarrow> [] | Some ps \<Rightarrow> ps) of
                   Inl e \<Rightarrow> Inl e
                 | Inr projects \<Rightarrow> Inr (sort_key (\<lambda>p. lower (proj_name p)) projects))))"

record dataset_reference =
  datasetId :: "string option"

record dataset_json =
  datasetReference :: "dataset_reference option"

text \<open>Line 95: \<open>d["datasetReference"]["datasetId"]\<close>.\<close>

definition dataset_of :: "dataset_json \<Rightarrow> error + string" where
  "dataset_of d =
     (case datasetReference d of
        None \<Rightarrow> Inl (KeyError ''datasetReference'')
      | Some r \<Rightarrow>
          (case datasetId r of
             None \<Rightarrow> Inl (KeyError ''datasetId'')
           | Some i \<Rightarrow> Inr i))"

text \<open>\<open>list_datasets\<close>, lines 80 to 97; the provider is called with the project and the token.\<close>

definition list_datasets ::
  "request \<Rightarrow> string \<Rightarrow> (string \<Rightarrow> string \<Rightarrow> dataset_json list option response)
     \<Rightarrow> error + string list" where
  "list_datasets request project_id bigquery =
     (case extract_token request of
        Inl e \<Rightarrow> Inl e
      | Inr token \<Rightarrow>
          (let resp = bigquery project_id token
           in if status_code resp \<noteq> 200
                then Inl (HTTPException (status_code resp) (resp_text resp))
              else
                (case comprehend dataset_of
                        (case resp_json resp of None \<Rightarrow> [] | Some ds \<Rightarrow> ds) of
                   Inl e \<Rightarrow> Inl e
                 | Inr datasets \<Rightarrow> Inr (sort datasets))))"

section \<open>The agent factory (\<open>create_bigquery_agent\<close> in agent.py)\<close>

record bigquery_toolset =
  credentials_token :: string
  compute_project_id :: string

record agent =
  model :: string
  agent_name :: string
  description :: string
  instruction :: string
  tools :: "bigquery_toolset list"

text \<open>
  Lines 44 to 49: the clause is empty unless a truthy default dataset is given, one
  that is neither \<open>None\<close> nor the empty string.
\<close>

definition dataset_clause :: "string \<Rightarrow> string option \<Rightarrow> string" where
  "dataset_clause project_id default_dataset =
     (case default_dataset of
        None \<Rightarrow> []
      | Some d \<Rightarrow>
          if d = [] then []
          else nl @ ''- Default Dataset: '' @ d @ nl
            @ ''When writing SQL queries, prefer the fully qualified table name: `''
            @ project_id @ ''.'' @ d @ ''.table_name`'' @ nl)"

definition instruction_text :: "string \<Rightarrow> string option \<Rightarrow> string" where
  "instruction_text project_id default_dataset =
     ''You are a helpful data analyst agent with access to Google BigQuery.'' @ nl
     @ nl
     @ ''IMPORTANT CONFIGURATION:'' @ nl
     @ ''- Project ID: '' @ project_id @ nl
     @ dataset_clause project_id default_dataset @ nl
     @ nl
     @ ''Your capabilities include:'' @ nl
     @ ''- Listing available datasets and tables'' @ nl
     @ ''- Getting schema information for tables'' @ nl
     @ ''- Executing SQL queries to answer questions about the data'' @ nl
     @ nl
     @ ''When a user asks a question:'' @ nl
     @ ''1. Start by discovering available datasets if you haven'' @ [CHR 0x27] @ ''t already'' @ nl
     @ ''2. Get table schemas to understand the structure before writing queries'' @ nl
     @ ''3. Write and execute SQL queries to answer the user'' @ [CHR 0x27] @ ''s questions'' @ nl
     @ ''4. Present results in a clear, readable format'' @ nl
     @ nl
     @ ''Always use the project '' @ [CHR 0x22] @ project_id @ [CHR 0x22]
     @ '' for all queries unless the user explicitly specifies otherwise.'' @ nl
     @ ''Always explain what you'' @ [CHR 0x27] @ ''re doing and provide context for your answers.'' @ nl
     @ ''If a query fails, explain the error and try to fix it.'' @ nl
     @ ''Be concise but thorough in your responses.''"

text \<open>The default of the parameter \<open>model\<close>, which \<open>query\<close> does not pass.\<close>

definition default_model :: string where
  "default_model = ''gemini-3-pro-preview''"

definition create_bigquery_agent :: "string \<Rightarrow> string \<Rightarrow> string option \<Rightarrow> string \<Rightarrow> agent" where
  "create_bigquery_agent access_token project_id default_dataset model_id =
     \<lparr>model = model_id,
      agent_name = ''BigQueryAgent'',
      description = ''An AI agent that can query and analyze data in Google BigQuery.'',
      instruction = instruction_text project_id default_dataset,
      tools = [\<lparr>credentials_token = access_token, compute_project_id = project_id\<rparr>]\<rparr>"

section \<open>The session registry (\<open>query\<close>, \<open>reset_session\<close>)\<close>

text \<open>
  The two module-level objects of lines 38 and 39: the dictionary \<open>active_runners\<close> and
  the runtime's \<open>InMemorySessionService\<close>. Of the service, which is library code, the
  model keeps the sessions it holds, by id. Its \<open>create_session\<close> stores a new session
  under an id it generates; that id is a parameter here.
\<close>

record session =
  sess_id :: string
  sess_app_name :: string
  sess_user_id :: string

record runner =
  runner_agent :: agent
  runner_app_name :: string

record entry =
  entry_runner :: runner
  entry_session :: session
  entry_project_id :: string

record server =
  active_runners :: "string \<rightharpoonup> entry"
  session_service :: "string \<rightharpoonup> session"

definition create_session ::
  "(string \<rightharpoonup> session) \<Rightarrow> string \<Rightarrow> string \<Rightarrow> string \<Rightarrow> session \<times> (string \<rightharpoonup> session)" where
  "create_session service app user new_id =
     (let s = \<lparr>sess_id = new_id, sess_app_name = app, sess_user_id = user\<rparr>
      in (s, service(new_id \<mapsto> s)))"

text \<open>
  The test \<open>session_id and session_id in active_runners\<close> of lines 116 and 193, with
  the entry it finds.
\<close>

fun registered :: "server \<Rightarrow> string option \<Rightarrow> (string \<times> entry) option" where
  "registered srv None = None"
| "registered srv (Some sid) =
     (if sid = [] then None
      else case active_runners srv sid of None \<Rightarrow> None | Some e \<Rightarrow> Some (sid, e))"

text \<open>
  What \<open>query\<close> returns: a JSON reply with a status, or the streaming reply, whose
  generator closes over the session id, the runner, the session and the user's content.
\<close>

datatype reply =
    JSONResponse string nat
  | StreamingResponse string runner session content

text \<open>Lines 142 to 145.\<close>

definition user_content :: "string \<Rightarrow> content" where
  "user_content user_message =
     \<lparr>role = Some ''user'',
      parts = Some [\<lparr>part_text = Has (Some user_message), part_function_call = Has None\<rparr>]\<rparr>"

text \<open>
  Lines 116 to 140: the runner and session of the entry found, or a new agent, runner and
  session, registered under the new session's id. \<open>new_id\<close> is the id the session
  service generates.
\<close>

definition get_or_create ::
  "server \<Rightarrow> string \<Rightarrow> string \<Rightarrow> string option \<Rightarrow> string option \<Rightarrow> string
     \<Rightarrow> (string \<times> runner \<times> session) \<times> server" where
  "get_or_create srv token project_id dataset session_id new_id =
     (case registered srv session_id of
        Some (sid, entry) \<Rightarrow> ((sid, entry_runner entry, entry_session entry), srv)
      | None \<Rightarrow>
          (let agent = create_bigquery_agent token project_id dataset default_model;
               runner = \<lparr>runner_agent = agent, runner_app_name = ''bigquery_agent''\<rparr>;
               (session, service) =
                 create_session (session_service srv) ''bigquery_agent'' ''web_user'' new_id;
               sid = sess_id session
           in ((sid, runner, session),
               srv\<lparr>active_runners := (active_runners srv)
                      (sid \<mapsto> \<lparr>entry_runner = runner, entry_session = session,
                                entry_project_id = project_id\<rparr>),
                   session_service := service\<rparr>)))"

text \<open>Line 105: \<open>body.get("message", "").strip()\<close>.\<close>

definition message_of :: "request \<Rightarrow> string" where
  "message_of request = strip (case body request ''message'' of None \<Rightarrow> [] | Some m \<Rightarrow> m)"

text \<open>
  \<open>query\<close>, lines 100 to 185, up to the construction of the generator. The handler
  returns its reply and leaves the server in a new state.
\<close>

definition query :: "server \<Rightarrow> request \<Rightarrow> string \<Rightarrow> (error + reply) \<times> server" where
  "query srv request new_id =
     (case extract_token request of
        Inl e \<Rightarrow> (Inl e, srv)
      | Inr token \<Rightarrow>
          (let user_message = message_of request;
               project_id = body request ''project_id'';
               dataset = body request ''dataset'';
               session_id = body request ''session_id''
           in if user_message = [] then (Inr (JSONResponse ''Empty message'' 400), srv)
              else
                (case project_id of
                   None \<Rightarrow> (Inr (JSONResponse ''No project_id specified'' 400), srv)
                 | Some pid \<Rightarrow>
                     if pid = [] then (Inr (JSONResponse ''No project_id specified'' 400), srv)
                     else
                       (case get_or_create srv token pid dataset session_id new_id of
                          ((sid, runner, session), srv') \<Rightarrow>
                            (Inr (StreamingResponse sid runner session (user_content user_message)),
                             srv')))))"

text \<open>
  The body of the streaming reply: the generator of the translator run on the feed that
  \<open>runner.run_async\<close> gives for this runner, session and content.
\<close>

fun stream_reply :: "reply \<Rightarrow> rat \<Rightarrow> raw_event list \<Rightarrow> feed_end \<Rightarrow> outbound list" where
  "stream_reply (StreamingResponse sid r s c) duration events fin =
     event_stream sid duration events fin"
| "stream_reply (JSONResponse msg status) duration events fin = []"

text \<open>\<open>reset_session\<close>, lines 188 to 195. It reads no token and always answers \<open>ok\<close>.\<close>

definition reset_session :: "server \<Rightarrow> request \<Rightarrow> bool \<times> server" where
  "reset_session srv request =
     (case registered srv (body request ''session_id'') of
        Some (sid, entry) \<Rightarrow> (True, srv\<lparr>active_runners := (active_runners srv)(sid := None)\<rparr>)
      | None \<Rightarrow> (True, srv))"

section \<open>Notions used to state the properties\<close>

text \<open>Kinds of outbound event.\<close>

fun is_session :: "outbound \<Rightarrow> bool" where
  "is_session (Session s) = True"
| "is_session e = False"

fun is_done :: "outbound \<Rightarrow> bool" where
  "is_done (Done d i k) = True"
| "is_done e = False"

fun is_error :: "outbound \<Rightarrow> bool" where
  "is_error (Error m) = True"
| "is_error e = False"

text \<open>The parts the passes iterate: those of a content that is there and not \<open>None\<close>.\<close>

definition event_parts :: "raw_event \<Rightarrow> part list" where
  "event_parts event =
     (case ev_content event of
        Has (Some c) \<Rightarrow> (case parts c of Some ps \<Rightarrow> ps | None \<Rightarrow> [])
      | _ \<Rightarrow> [])"

text \<open>
  The text fragments of a raw event, in content order: the non-empty texts of its parts.
  Its tool invocations, in content order: the function calls of its parts.
\<close>

definition fragments :: "raw_event \<Rightarrow> string list" where
  "fragments event =
     concat (map (\<lambda>p. case part_text p of Has (Some t) \<Rightarrow> (if t = [] then [] else [t]) | _ \<Rightarrow> [])
       (event_parts event))"

definition invocations :: "raw_event \<Rightarrow> function_call list" where
  "invocations event =
     concat (map (\<lambda>p. case part_function_call p of Has (Some fn) \<Rightarrow> [fn] | _ \<Rightarrow> [])
       (event_parts event))"

text \<open>
  What the specification has the translator emit for one raw event: a \<open>text\<close> event for
  each fragment, then a \<open>tool\<close> event for each invocation.
\<close>

definition translated :: "raw_event \<Rightarrow> outbound list" where
  "translated event =
     map Text (fragments event) @ map (\<lambda>fn. Tool (tool_name fn)) (invocations event)"

text \<open>
  The loop body raises on an event whose content is there with \<open>parts\<close> being \<open>None\<close>.
  The events the loop consumes are those up to the first such event, that one included.
\<close>

definition body_raises :: "raw_event \<Rightarrow> bool" where
  "body_raises event =
     (case ev_content event of
        Has (Some c) \<Rightarrow> (case parts c of None \<Rightarrow> True | Some ps \<Rightarrow> False)
      | _ \<Rightarrow> False)"

fun consumed :: "raw_event list \<Rightarrow> raw_event list" where
  "consumed [] = []"
| "consumed (event # rest) = (if body_raises event then [event] else event # consumed rest)"

text \<open>What the handler of line 179 catches, if anything.\<close>

definition caught :: "raw_event list \<Rightarrow> feed_end \<Rightarrow> string option" where
  "caught events fin =
     (if list_ex body_raises events then Some not_iterable
      else case fin of StopAsyncIteration \<Rightarrow> None | Raises e \<Rightarrow> Some e)"

text \<open>
  The values of a counter that the events report, oldest first: one for each event whose
  usage metadata is there, is not \<open>None\<close> and has the counter's attribute.
\<close>

definition input_reports :: "raw_event list \<Rightarrow> int option list" where
  "input_reports events =
     concat (map (\<lambda>ev. case ev_usage_metadata ev of
                          Has (Some u) \<Rightarrow> (case prompt_token_count u of Has v \<Rightarrow> [v] | Missing \<Rightarrow> [])
                        | _ \<Rightarrow> []) events)"

definition output_reports :: "raw_event list \<Rightarrow> int option list" where
  "output_reports events =
     concat (map (\<lambda>ev. case ev_usage_metadata ev of
                          Has (Some u) \<Rightarrow> (case candidates_token_count u of Has v \<Rightarrow> [v] | Missing \<Rightarrow> [])
                        | _ \<Rightarrow> []) events)"

text \<open>
  The counter as the specification words it: the latest value that is not null, where
  a null value changes nothing; \<open>0\<close> when there is none.
\<close>

fun latest_non_null :: "int \<Rightarrow> int option list \<Rightarrow> int" where
  "latest_non_null acc [] = acc"
| "latest_non_null acc (None # vs) = latest_non_null acc vs"
| "latest_non_null acc (Some v # vs) = latest_non_null v vs"

text \<open>The counter as the code computes it: the latest value, a null one read as \<open>0\<close>.\<close>

definition latest_or0 :: "int option list \<Rightarrow> int" where
  "latest_or0 vs = (if vs = [] then 0 else or0 (last vs))"

text \<open>
  Raw events for examples: one text part; usage metadata only; a function call followed
  by two text parts; a content whose \<open>parts\<close> is \<open>None\<close>.
\<close>

definition text_event :: "string \<Rightarrow> raw_event" where
  "text_event t =
     \<lparr>ev_usage_metadata = Has None,
      ev_content = Has (Some \<lparr>role = Some ''model'',
        parts = Some [\<lparr>part_text = Has (Some t), part_function_call = Has None\<rparr>]\<rparr>)\<rparr>"

definition usage_event :: "int option \<Rightarrow> int option \<Rightarrow> raw_event" where
  "usage_event p c =
     \<lparr>ev_usage_metadata = Has (Some \<lparr>prompt_token_count = Has p, candidates_token_count = Has c\<rparr>),
      ev_content = Has None\<rparr>"

definition mixed_event :: raw_event where
  "mixed_event =
     \<lparr>ev_usage_metadata = Has None,
      ev_content = Has (Some \<lparr>role = Some ''model'',
        parts = Some
          [\<lparr>part_text = Has None,
            part_function_call = Has (Some \<lparr>fn_name = Has (Some ''execute_sql''), fn_str = ''fc''\<rparr>)\<rparr>,
           \<lparr>part_text = Has (Some ''Running''), part_function_call = Has None\<rparr>,
           \<lparr>part_text = Has (Some '' the query''), part_function_call = Has None\<rparr>]\<rparr>)\<rparr>"

definition broken_event :: raw_event where
  "broken_event =
     \<lparr>ev_usage_metadata = Has None,
      ev_content = Has (Some \<lparr>role = Some ''model'', parts = None\<rparr>)\<rparr>"

text \<open>A request for examples, from its authorization header and its body.\<close>

definition mk_request :: "string \<Rightarrow> (string \<times> string) list \<Rightarrow> request" where
  "mk_request auth kvs = \<lparr>headers = [''Authorization'' \<mapsto> auth], body = map_of kvs\<rparr>"

definition empty_server :: server where
  "empty_server = \<lparr>active_runners = Map.empty, session_service = Map.empty\<rparr>"

text \<open>Upstream replies and their entries, for examples.\<close>

definition upstream :: "nat \<Rightarrow> string \<Rightarrow> 'a \<Rightarrow> 'a response" where
  "upstream status txt js = \<lparr>status_code = status, resp_text = txt, resp_json = js\<rparr>"

definition project_entry :: "string \<Rightarrow> string \<Rightarrow> project_json" where
  "project_entry i n = \<lparr>projectId = Some i, name = Some n, projectNumber = None\<rparr>"

definition dataset_entry :: "string \<Rightarrow> dataset_json" where
  "dataset_entry i = \<lparr>datasetReference = Some \<lparr>datasetId = Some i\<rparr>\<rparr>"

text \<open>The runner and the session that a first request creates, for examples.\<close>

definition new_runner :: "string \<Rightarrow> string \<Rightarrow> string option \<Rightarrow> runner" where
  "new_runner token project_id dataset =
     \<lparr>runner_agent = create_bigquery_agent token project_id dataset default_model,
      runner_app_name = ''bigquery_agent''\<rparr>"

definition new_session :: "string \<Rightarrow> session" where
  "new_session new_id =
     \<lparr>sess_id = new_id, sess_app_name = ''bigquery_agent'', sess_user_id = ''web_user''\<rparr>"

section \<open>Properties of the translator\<close>

subsection \<open>The loop in closed form\<close>

lemma over_parts_text:
  "over_parts text_parts ev =
     (if body_raises ev then Inl not_iterable else Inr (map Text (fragments ev)))"
proof -
  have tp: "text_parts ps =
      map Text (concat (map (\<lambda>p. case part_text p of
                                    Has (Some t) \<Rightarrow> (if t = [] then [] else [t])
                                  | _ \<Rightarrow> []) ps))" for ps
    by (induction ps) (auto split: attr.splits option.splits)
  show ?thesis
    by (simp add: body_raises_def fragments_def event_parts_def tp
          split: attr.splits option.splits)
qed

lemma over_parts_tool:
  "over_parts tool_parts ev =
     (if body_raises ev then Inl not_iterable
      else Inr (map (\<lambda>fn. Tool (tool_name fn)) (invocations ev)))"
proof -
  have tp: "tool_parts ps =
      map (\<lambda>fn. Tool (tool_name fn))
        (concat (map (\<lambda>p. case part_function_call p of Has (Some fn) \<Rightarrow> [fn] | _ \<Rightarrow> []) ps))"
    for ps
    by (induction ps) (auto split: attr.splits option.splits)
  show ?thesis
    by (simp add: body_raises_def invocations_def event_parts_def tp
          split: attr.splits option.splits)
qed

declare over_parts.simps [simp del] upd_input.simps [simp del] upd_output.simps [simp del]


lemma raises_no_parts: "body_raises ev \<Longrightarrow> translated ev = []"
  by (auto simp: body_raises_def translated_def fragments_def invocations_def event_parts_def
        split: attr.splits option.splits)

lemma run_feed_eq:
  "run_feed i k evs fin =
     (concat (map translated (consumed evs)) @ (case caught evs fin of None \<Rightarrow> [] | Some m \<Rightarrow> [Error m]),
      foldl upd_input i (consumed evs), foldl upd_output k (consumed evs))"
proof (induction evs arbitrary: i k)
  case Nil
  show ?case by (cases fin) (simp_all add: caught_def)
next
  case (Cons ev evs)
  show ?case
  proof (cases "body_raises ev")
    case True
    then show ?thesis
      by (simp add: over_parts_text caught_def raises_no_parts Let_def)
  next
    case False
    then show ?thesis
      by (simp add: over_parts_text over_parts_tool caught_def translated_def Cons.IH Let_def
            split: option.splits feed_end.splits)
  qed
qed


lemma foldl_upd_input:
  "foldl upd_input i evs = (if input_reports evs = [] then i else or0 (last (input_reports evs)))"
proof (induction evs arbitrary: i)
  case Nil
  show ?case by (simp add: input_reports_def)
next
  case (Cons ev evs)
  have step: "input_reports (ev # evs) =
      (case ev_usage_metadata ev of
         Has (Some u) \<Rightarrow> (case prompt_token_count u of Has v \<Rightarrow> [v] | Missing \<Rightarrow> [])
       | _ \<Rightarrow> []) @ input_reports evs"
    by (simp add: input_reports_def)
  show ?case
    unfolding foldl_Cons Cons.IH step
    by (simp add: upd_input.simps split: attr.splits option.splits)
qed

lemma foldl_upd_output:
  "foldl upd_output k evs = (if output_reports evs = [] then k else or0 (last (output_reports evs)))"
proof (induction evs arbitrary: k)
  case Nil
  show ?case by (simp add: output_reports_def)
next
  case (Cons ev evs)
  have step: "output_reports (ev # evs) =
      (case ev_usage_metadata ev of
         Has (Some u) \<Rightarrow> (case candidates_token_count u of Has v \<Rightarrow> [v] | Missing \<Rightarrow> [])
       | _ \<Rightarrow> []) @ output_reports evs"
    by (simp add: output_reports_def)
  show ?case
    unfolding foldl_Cons Cons.IH step
    by (simp add: upd_output.simps split: attr.splits option.splits)
qed

lemma translated_kinds:
  "filter is_session (translated ev) = [] \<and> filter is_done (translated ev) = []
   \<and> filter is_error (translated ev) = []"
  by (simp add: translated_def filter_map o_def)

lemma concat_translated_kinds:
  "filter is_session (concat (map translated evs)) = []
   \<and> filter is_done (concat (map translated evs)) = []
   \<and> filter is_error (concat (map translated evs)) = []"
  by (induction evs) (simp_all add: translated_kinds)

lemma event_stream_eq:
  "event_stream sid d evs fin =
     Session sid # concat (map translated (consumed evs))
       @ (case caught evs fin of None \<Rightarrow> [] | Some m \<Rightarrow> [Error m])
       @ [Done (round2 d) (foldl upd_input 0 (consumed evs)) (foldl upd_output 0 (consumed evs))]"
  by (simp add: event_stream_def run_feed_eq)

lemma round2_hundredths: "\<exists>n::int. round2 d = of_int n / 100"
  by (simp add: round2_def)

lemma round_half_even_near: "\<bar>of_int (round_half_even q) - q\<bar> \<le> 1 / 2"
proof -
  have lo: "rat_of_int \<lfloor>q\<rfloor> \<le> q" and hi: "q < rat_of_int \<lfloor>q\<rfloor> + 1"
    by linarith+
  show ?thesis
    unfolding round_half_even_def Let_def using lo hi
    by (simp add: abs_le_iff)
qed

lemma round2_near: "\<bar>round2 d - d\<bar> \<le> 1 / 200"
proof -
  have "\<bar>of_int (round_half_even (d * 100)) - d * 100\<bar> \<le> 1 / 2"
    by (rule round_half_even_near)
  then show ?thesis
    unfolding round2_def by (simp add: abs_le_iff field_simps)
qed

subsection \<open>Facts about \<open>query\<close>\<close>

lemma registered_Some:
  "registered srv x = Some (sid, e) \<longleftrightarrow> x = Some sid \<and> sid \<noteq> [] \<and> active_runners srv sid = Some e"
  by (cases x) (auto split: option.splits)

lemma get_or_create_found:
  assumes "sid \<noteq> []" and "active_runners srv sid = Some e"
  shows "get_or_create srv token pid dataset (Some sid) new_id
           = ((sid, entry_runner e, entry_session e), srv)"
  using assms by (simp add: get_or_create_def)

lemma get_or_create_registers:
  assumes "get_or_create srv token pid dataset x new_id = ((sid, r, s), srv')"
  shows "\<exists>e. active_runners srv' sid = Some e \<and> entry_runner e = r \<and> entry_session e = s"
proof (cases "registered srv x")
  case None
  with assms show ?thesis
    by (auto simp: get_or_create_def create_session_def Let_def)
next
  case (Some a)
  obtain sid' e where a: "a = (sid', e)" by (cases a)
  with Some assms show ?thesis
    by (auto simp: get_or_create_def registered_Some)
qed

lemma query_cases:
  "(\<exists>e. query srv request new_id = (Inl e, srv))
   \<or> (\<exists>msg st. query srv request new_id = (Inr (JSONResponse msg st), srv))
   \<or> (\<exists>token pid. extract_token request = Inr token \<and> message_of request \<noteq> []
         \<and> body request ''project_id'' = Some pid \<and> pid \<noteq> []
         \<and> query srv request new_id =
             (case get_or_create srv token pid (body request ''dataset'') (body request ''session_id'') new_id of
                ((sid, r, s), srv') \<Rightarrow>
                  (Inr (StreamingResponse sid r s (user_content (message_of request))), srv')))"
  by (auto simp: query_def message_of_def Let_def split: sum.splits option.splits)

lemma query_streaming:
  assumes "fst (query srv request new_id) = Inr (StreamingResponse sid r s c)"
  shows "\<exists>e. active_runners (snd (query srv request new_id)) sid = Some e
             \<and> entry_runner e = r \<and> entry_session e = s"
proof -
  from query_cases [of srv request new_id] assms
  obtain token pid where
    q: "query srv request new_id =
             (case get_or_create srv token pid (body request ''dataset'') (body request ''session_id'') new_id of
                ((sid, r, s), srv') \<Rightarrow>
                  (Inr (StreamingResponse sid r s (user_content (message_of request))), srv'))"
    by auto
  obtain sid' r' s' srv' where
    g: "get_or_create srv token pid (body request ''dataset'') (body request ''session_id'') new_id
          = ((sid', r', s'), srv')"
    by (metis prod.collapse)
  from q g assms have "sid' = sid" "r' = r" "s' = s" and "snd (query srv request new_id) = srv'"
    by simp_all
  with get_or_create_registers [OF g] show ?thesis by simp
qed



lemmas eval_defs =
  query_def extract_token_def mk_request_def startswith_def message_of_def strip_def
  isspace_def get_or_create_def empty_server_def create_session_def new_runner_def
  new_session_def reset_session_def Let_def

lemmas stream_defs =
  event_stream_def text_event_def usage_event_def mixed_event_def over_parts.simps
  upd_input.simps upd_output.simps round2_def round_half_even_def Let_def

subsection \<open>Claims about the stream\<close>

text \<open>
  Claim C1. Whenever \<open>query\<close> answers with the streaming reply, the stream begins with
  the one \<open>session\<close> event, which carries the resolved session id (an id the registry
  holds), and ends with the one \<open>done\<close> event, which carries the duration line 182 computes,
  rounded to hundredths, and the two counters as the loop left them. This holds for every feed,
  one that ends in an exception included, and the empty feed gives \<open>session\<close>, \<open>done\<close>.
\<close>

theorem stream_session_first_done_last:
  assumes "fst (query srv request new_id) = Inr (StreamingResponse sid r s c)"
  shows "let out = stream_reply (StreamingResponse sid r s c) d evs fin;
             fin_done = Done (round2 d) (foldl upd_input 0 (consumed evs))
                          (foldl upd_output 0 (consumed evs))
         in active_runners (snd (query srv request new_id)) sid \<noteq> None
            \<and> hd out = Session sid \<and> last out = fin_done
            \<and> filter is_session out = [Session sid] \<and> filter is_done out = [fin_done]
            \<and> stream_reply (StreamingResponse sid r s c) d [] StopAsyncIteration
                = [Session sid, Done (round2 d) 0 0]
            \<and> (\<exists>n::int. round2 d = of_int n / 100)
            \<and> \<bar>round2 d - d\<bar> \<le> 1 / 200"
proof -
  have reg: "active_runners (snd (query srv request new_id)) sid \<noteq> None"
    using query_streaming [OF assms] by auto
  have shape: "hd (event_stream sid d evs fin) = Session sid
   \<and> last (event_stream sid d evs fin)
       = Done (round2 d) (foldl upd_input 0 (consumed evs)) (foldl upd_output 0 (consumed evs))
   \<and> filter is_session (event_stream sid d evs fin) = [Session sid]
   \<and> filter is_done (event_stream sid d evs fin)
       = [Done (round2 d) (foldl upd_input 0 (consumed evs)) (foldl upd_output 0 (consumed evs))]"
    by (simp add: event_stream_eq concat_translated_kinds split: option.splits)
  have empty: "event_stream sid d [] StopAsyncIteration = [Session sid, Done (round2 d) 0 0]"
    by (simp add: event_stream_eq caught_def)
  from reg shape empty round2_hundredths [of d] round2_near [of d]
  show ?thesis unfolding Let_def stream_reply.simps by blast
qed

theorem stream_session_first_done_last_witness:
  "fst (query empty_server
          (mk_request ''Bearer tok'' [(''message'', '' hello ''), (''project_id'', ''proj'')]) ''s1'')
     = Inr (StreamingResponse ''s1'' (new_runner ''tok'' ''proj'' None) (new_session ''s1'')
              (user_content ''hello''))
   \<and> hd (stream_reply (StreamingResponse ''s1'' (new_runner ''tok'' ''proj'' None) (new_session ''s1'')
              (user_content ''hello'')) (27 / 16) [text_event ''Hi'', usage_event (Some 12) (Some 3)]
              (Raises ''boom'')) = Session ''s1''
   \<and> last (stream_reply (StreamingResponse ''s1'' (new_runner ''tok'' ''proj'' None) (new_session ''s1'')
              (user_content ''hello'')) (27 / 16) [text_event ''Hi'', usage_event (Some 12) (Some 3)]
              (Raises ''boom'')) = Done (169 / 100) 12 3"
proof -
  have q: "fst (query empty_server
          (mk_request ''Bearer tok'' [(''message'', '' hello ''), (''project_id'', ''proj'')]) ''s1'')
     = Inr (StreamingResponse ''s1'' (new_runner ''tok'' ''proj'' None) (new_session ''s1'')
              (user_content ''hello''))"
    by (simp add: eval_defs)
  have c: "consumed [text_event ''Hi'', usage_event (Some 12) (Some 3)]
             = [text_event ''Hi'', usage_event (Some 12) (Some 3)]"
    by (simp add: body_raises_def text_event_def usage_event_def)
  have f: "\<lfloor>(27::rat) / 16 * 100\<rfloor> = 168"
    by (rule floor_unique) simp_all
  have r: "round2 (27 / 16) = 169 / 100"
    unfolding round2_def round_half_even_def Let_def f by simp
  from stream_session_first_done_last [OF q, of "27 / 16" "[text_event ''Hi'', usage_event (Some 12) (Some 3)]" "Raises ''boom''"]
  show ?thesis
    using q unfolding Let_def c r
    by (simp add: upd_input.simps upd_output.simps text_event_def usage_event_def)
qed

lemma consumed_all: "\<not> list_ex body_raises evs \<Longrightarrow> consumed evs = evs"
  by (induction evs) auto

text \<open>
  Claim C2. When the feed raises after a prefix of events that the loop has consumed,
  the stream is the \<open>session\<close> event, the translation of the prefix, one \<open>error\<close> event
  carrying the exception's message, and the \<open>done\<close> event: the generator completes, it
  does not raise. Two text fragments followed by an exception give
  \<open>session\<close>, \<open>text\<close>, \<open>text\<close>, \<open>error\<close>, \<open>done\<close>.
\<close>

theorem feed_exception_error_then_done:
  assumes "\<not> list_ex body_raises evs"
  shows "event_stream sid d evs (Raises msg)
           = Session sid # concat (map translated evs)
               @ [Error msg, Done (round2 d) (foldl upd_input 0 evs) (foldl upd_output 0 evs)]
         \<and> filter is_error (event_stream sid d evs (Raises msg)) = [Error msg]
         \<and> (a \<noteq> [] \<and> b \<noteq> [] \<longrightarrow>
              event_stream sid d [text_event a, text_event b] (Raises msg)
                = [Session sid, Text a, Text b, Error msg, Done (round2 d) 0 0])"
proof -
  have eq: "event_stream sid d evs (Raises msg)
           = Session sid # concat (map translated evs)
               @ [Error msg, Done (round2 d) (foldl upd_input 0 evs) (foldl upd_output 0 evs)]"
    using assms by (simp add: event_stream_eq consumed_all caught_def)
  have one: "filter is_error (event_stream sid d evs (Raises msg)) = [Error msg]"
    unfolding eq by (simp add: concat_translated_kinds)
  have two: "event_stream sid d [text_event a, text_event b] (Raises msg)
                = [Session sid, Text a, Text b, Error msg, Done (round2 d) 0 0]"
    if "a \<noteq> []" and "b \<noteq> []"
    using that by (simp add: event_stream_def text_event_def over_parts.simps upd_input.simps upd_output.simps)
  from eq one two show ?thesis by blast
qed

theorem feed_exception_error_then_done_witness:
  "\<not> list_ex body_raises [text_event ''Hel'', text_event ''lo'']
   \<and> event_stream ''s1'' 1 [text_event ''Hel'', text_event ''lo''] (Raises ''boom'')
       = [Session ''s1'', Text ''Hel'', Text ''lo'', Error ''boom'', Done 1 0 0]
   \<and> filter is_error (event_stream ''s1'' 1 [text_event ''Hel'', text_event ''lo''] (Raises ''boom''))
       = [Error ''boom'']"
proof -
  have h: "\<not> list_ex body_raises [text_event ''Hel'', text_event ''lo'']"
    by (simp add: body_raises_def text_event_def)
  have r: "round2 1 = 1"
    by (simp add: round2_def round_half_even_def)
  from feed_exception_error_then_done [OF h, of "''s1''" 1 "''boom''" "''Hel''" "''lo''"] h r
  show ?thesis
    by (simp add: translated_def fragments_def invocations_def event_parts_def text_event_def
          upd_input.simps upd_output.simps)
qed


lemma latest_non_null_all_Some:
  "None \<notin> set vs \<Longrightarrow> latest_non_null acc vs = (if vs = [] then acc else the (last vs))"
  by (induction acc vs rule: latest_non_null.induct) auto

lemma or0_the: "v \<noteq> None \<Longrightarrow> or0 v = the v"
  by (cases v) auto

lemma latest_or0_non_null:
  assumes "None \<notin> set vs"
  shows "latest_or0 vs = latest_non_null 0 vs"
proof (cases "vs = []")
  case True
  then show ?thesis by (simp add: latest_or0_def)
next
  case False
  with assms have "last vs \<noteq> None"
    by (metis last_in_set)
  with assms False show ?thesis
    by (simp add: latest_or0_def latest_non_null_all_Some or0_the)
qed

text \<open>
  Claim C3, as stated: the counters of the \<open>done\<close> event are the latest non-null values
  reported, and a null value overwrites nothing. The code reads a null value as \<open>0\<close>
  and stores it: after a report of 5 and 7, a report with both counters null leaves
  \<open>0\<close> and \<open>0\<close>.
\<close>

theorem null_counter_overwrites_counterexample:
  "event_stream ''s1'' 1 [usage_event (Some 5) (Some 7), usage_event None None] StopAsyncIteration
     = [Session ''s1'', Done 1 0 0]
   \<and> latest_non_null 0 (input_reports [usage_event (Some 5) (Some 7), usage_event None None]) = 5
   \<and> latest_non_null 0 (output_reports [usage_event (Some 5) (Some 7), usage_event None None]) = 7"
  by (simp add: stream_defs input_reports_def output_reports_def)

text \<open>
  Claim C3, amended. Each counter of the \<open>done\<close> event is the latest value reported for
  it by the events the loop consumed, a null value read as \<open>0\<close>, and \<open>0\<close> when nothing
  was reported; values are not summed, and an event that reports nothing for a counter
  leaves it as it is. Where no reported value is null this is the latest non-null value.
\<close>

theorem done_counters_latest_report:
  "last (event_stream sid d evs fin)
     = Done (round2 d) (latest_or0 (input_reports (consumed evs)))
         (latest_or0 (output_reports (consumed evs)))
   \<and> (None \<notin> set (input_reports (consumed evs)) \<longrightarrow>
        latest_or0 (input_reports (consumed evs)) = latest_non_null 0 (input_reports (consumed evs)))
   \<and> (None \<notin> set (output_reports (consumed evs)) \<longrightarrow>
        latest_or0 (output_reports (consumed evs)) = latest_non_null 0 (output_reports (consumed evs)))"
  by (simp add: event_stream_eq foldl_upd_input foldl_upd_output latest_or0_def [symmetric]
        latest_or0_non_null split: option.splits)

theorem done_counters_latest_report_witness:
  "None \<notin> set (input_reports (consumed
       [usage_event (Some 5) (Some 2), text_event ''a'', usage_event (Some 9) (Some 4)]))
   \<and> None \<notin> set (output_reports (consumed
       [usage_event (Some 5) (Some 2), text_event ''a'', usage_event (Some 9) (Some 4)]))
   \<and> last (event_stream ''s1'' 1
        [usage_event (Some 5) (Some 2), text_event ''a'', usage_event (Some 9) (Some 4)]
        StopAsyncIteration) = Done 1 9 4
   \<and> latest_non_null 0 (input_reports (consumed
       [usage_event (Some 5) (Some 2), text_event ''a'', usage_event (Some 9) (Some 4)])) = 9
   \<and> latest_non_null 0 (output_reports (consumed
       [usage_event (Some 5) (Some 2), text_event ''a'', usage_event (Some 9) (Some 4)])) = 4"
proof -
  let ?evs = "[usage_event (Some 5) (Some 2), text_event ''a'', usage_event (Some 9) (Some 4)]"
  have c: "consumed ?evs = ?evs"
    by (simp add: body_raises_def text_event_def usage_event_def)
  have i: "input_reports ?evs = [Some 5, Some 9]"
    by (simp add: input_reports_def text_event_def usage_event_def)
  have k: "output_reports ?evs = [Some 2, Some 4]"
    by (simp add: output_reports_def text_event_def usage_event_def)
  have r: "round2 1 = 1"
    by (simp add: round2_def round_half_even_def)
  from done_counters_latest_report [of "''s1''" 1 ?evs StopAsyncIteration]
  show ?thesis unfolding c i k r by (simp add: latest_or0_def)
qed

text \<open>
  Claim C4. Between the \<open>session\<close> event and the end of the stream, the events are, for
  each raw event consumed and in the order of the feed, one \<open>text\<close> event for each text
  fragment in content order and then one \<open>tool\<close> event for each invocation in content
  order; fragments are neither merged nor reordered, and the texts of a raw event come
  before its tools. An event on which the loop body raises has no fragment and no
  invocation.
\<close>

theorem text_then_tool_per_event:
  "event_stream sid d evs fin
     = Session sid
       # concat (map (\<lambda>ev. map Text (fragments ev) @ map (\<lambda>fn. Tool (tool_name fn)) (invocations ev))
                  (consumed evs))
       @ (case caught evs fin of None \<Rightarrow> [] | Some m \<Rightarrow> [Error m])
       @ [Done (round2 d) (foldl upd_input 0 (consumed evs)) (foldl upd_output 0 (consumed evs))]
   \<and> (\<forall>ev \<in> set evs. body_raises ev \<longrightarrow> fragments ev = [] \<and> invocations ev = [])"
proof -
  have "translated = (\<lambda>ev. map Text (fragments ev) @ map (\<lambda>fn. Tool (tool_name fn)) (invocations ev))"
    by (rule ext) (simp add: translated_def)
  moreover have "fragments ev = [] \<and> invocations ev = []" if "body_raises ev" for ev
    using that
    by (auto simp: body_raises_def fragments_def invocations_def event_parts_def
          split: attr.splits option.splits)
  ultimately show ?thesis
    using event_stream_eq [of sid d evs fin] by simp
qed

theorem text_then_tool_per_event_witness:
  "event_stream ''s1'' 1 [mixed_event, broken_event, text_event ''never''] StopAsyncIteration
     = [Session ''s1'', Text ''Running'', Text '' the query'', Tool (Some ''execute_sql''),
        Error not_iterable, Done 1 0 0]
   \<and> body_raises broken_event \<and> fragments broken_event = [] \<and> invocations broken_event = []"
proof -
  have b: "body_raises broken_event"
    by (simp add: body_raises_def broken_event_def)
  have c: "consumed [mixed_event, broken_event, text_event ''never''] = [mixed_event, broken_event]"
    by (simp add: body_raises_def broken_event_def mixed_event_def)
  have x: "caught [mixed_event, broken_event, text_event ''never''] StopAsyncIteration = Some not_iterable"
    by (simp add: caught_def b)
  have r: "round2 1 = 1"
    by (simp add: round2_def round_half_even_def)
  note eq = text_then_tool_per_event [of "''s1''" 1
      "[mixed_event, broken_event, text_event ''never'']" StopAsyncIteration, THEN conjunct1]
  have s: "event_stream ''s1'' 1 [mixed_event, broken_event, text_event ''never''] StopAsyncIteration
     = [Session ''s1'', Text ''Running'', Text '' the query'', Tool (Some ''execute_sql''),
        Error not_iterable, Done 1 0 0]"
    unfolding eq c x r
    by (simp add: fragments_def invocations_def event_parts_def
          broken_event_def mixed_event_def upd_input.simps upd_output.simps)
  have f: "fragments broken_event = [] \<and> invocations broken_event = []"
    by (simp add: fragments_def invocations_def event_parts_def broken_event_def)
  from s b f show ?thesis by blast
qed

section \<open>Properties of the session registry\<close>

lemma strip_blank: "\<forall>c \<in> set m. isspace c \<Longrightarrow> strip m = []"
proof -
  assume "\<forall>c \<in> set m. isspace c"
  then have d: "dropWhile isspace m = []"
    by (induction m) auto
  show ?thesis unfolding strip_def d by simp
qed

lemma query_valid:
  assumes "extract_token request = Inr token" and "message_of request \<noteq> []"
    and "body request ''project_id'' = Some pid" and "pid \<noteq> []"
  shows "query srv request new_id =
     (case get_or_create srv token pid (body request ''dataset'') (body request ''session_id'') new_id of
        ((sid, r, s), srv') \<Rightarrow>
          (Inr (StreamingResponse sid r s (user_content (message_of request))), srv'))"
  using assms by (simp add: query_def Let_def)

lemma query_empty_message:
  "message_of request = [] \<Longrightarrow>
   query srv request new_id =
     (case extract_token request of
        Inl e \<Rightarrow> (Inl e, srv)
      | Inr token \<Rightarrow> (Inr (JSONResponse ''Empty message'' 400), srv))"
  by (simp add: query_def split: sum.splits)

text \<open>
  Claim C10. A request whose message is made of whitespace only is answered exactly as
  the same request with the empty message is. With a bearer token in place that answer
  is the JSON reply \<open>Empty message\<close> with status 400, and the server is left as it was:
  no entry is looked up, no agent, runner or session is made.
\<close>

theorem blank_message_rejected:
  assumes "body request ''message'' = Some m" and "\<forall>c \<in> set m. isspace c"
  shows "query srv request new_id
           = query srv (request\<lparr>body := (body request)(''message'' \<mapsto> [])\<rparr>) new_id
         \<and> (extract_token request = Inr token \<longrightarrow>
              query srv request new_id = (Inr (JSONResponse ''Empty message'' 400), srv))"
proof -
  have m1: "message_of request = []"
    using assms by (simp add: message_of_def strip_blank)
  have m2: "message_of (request\<lparr>body := (body request)(''message'' \<mapsto> [])\<rparr>) = []"
    by (simp add: message_of_def strip_def)
  have t: "extract_token (request\<lparr>body := (body request)(''message'' \<mapsto> [])\<rparr>) = extract_token request"
    by (simp add: extract_token_def)
  show ?thesis
    by (simp add: query_empty_message [OF m1] query_empty_message [OF m2] t)
qed

theorem blank_message_rejected_witness:
  "body (mk_request ''Bearer tok'' [(''message'', [CHR 0x20, CHR 0x09, CHR 0x0A]), (''project_id'', ''proj'')])
       ''message'' = Some [CHR 0x20, CHR 0x09, CHR 0x0A]
   \<and> isspace (CHR 0x20) \<and> isspace (CHR 0x09) \<and> isspace (CHR 0x0A)
   \<and> extract_token (mk_request ''Bearer tok'' [(''message'', [CHR 0x20, CHR 0x09, CHR 0x0A]), (''project_id'', ''proj'')])
       = Inr ''tok''
   \<and> query empty_server
        (mk_request ''Bearer tok'' [(''message'', [CHR 0x20, CHR 0x09, CHR 0x0A]), (''project_id'', ''proj'')]) ''s1''
       = (Inr (JSONResponse ''Empty message'' 400), empty_server)"
proof -
  have b: "body (mk_request ''Bearer tok'' [(''message'', [CHR 0x20, CHR 0x09, CHR 0x0A]), (''project_id'', ''proj'')])
       ''message'' = Some [CHR 0x20, CHR 0x09, CHR 0x0A]"
    by (simp add: mk_request_def)
  have w: "\<forall>c \<in> set [CHR 0x20, CHR 0x09, CHR 0x0A]. isspace c"
    by (simp add: isspace_def)
  have t: "extract_token (mk_request ''Bearer tok'' [(''message'', [CHR 0x20, CHR 0x09, CHR 0x0A]), (''project_id'', ''proj'')])
       = Inr ''tok''"
    by (simp add: extract_token_def mk_request_def startswith_def)
  from blank_message_rejected [OF b w, of empty_server "''s1''" "''tok''"] t
  have q: "query empty_server
        (mk_request ''Bearer tok'' [(''message'', [CHR 0x20, CHR 0x09, CHR 0x0A]), (''project_id'', ''proj'')]) ''s1''
       = (Inr (JSONResponse ''Empty message'' 400), empty_server)"
    by blast
  have sp: "isspace (CHR 0x20) \<and> isspace (CHR 0x09) \<and> isspace (CHR 0x0A)"
    using w by simp
  from b sp t q show ?thesis by blast
qed

text \<open>
  Claim C5. When the request names a session id that the registry holds, \<open>query\<close> leaves
  the server as it was, the entry included; and when the request passes validation, the
  reply streams from the runner and the session of that entry, whatever token, project
  and dataset the request carries.
\<close>

theorem session_reuse_keeps_entry:
  assumes "body request ''session_id'' = Some sid" and "sid \<noteq> []"
    and "active_runners srv sid = Some e"
  shows "snd (query srv request new_id) = srv
         \<and> (extract_token request = Inr token \<and> message_of request \<noteq> []
              \<and> body request ''project_id'' = Some pid \<and> pid \<noteq> [] \<longrightarrow>
            fst (query srv request new_id)
              = Inr (StreamingResponse sid (entry_runner e) (entry_session e)
                       (user_content (message_of request))))"
proof -
  have g: "get_or_create srv tok p (body request ''dataset'') (body request ''session_id'') new_id
             = ((sid, entry_runner e, entry_session e), srv)" for tok p
    using assms by (simp add: get_or_create_found)
  have unchanged: "snd (query srv request new_id) = srv"
    using query_cases [of srv request new_id] by (auto simp: g)
  have reply: "fst (query srv request new_id)
              = Inr (StreamingResponse sid (entry_runner e) (entry_session e)
                       (user_content (message_of request)))"
    if "extract_token request = Inr token" and "message_of request \<noteq> []"
      and "body request ''project_id'' = Some pid" and "pid \<noteq> []"
    using query_valid [OF that] by (simp add: g)
  from unchanged reply show ?thesis by blast
qed

theorem session_reuse_keeps_entry_witness:
  "body (mk_request ''Bearer other'' [(''message'', ''again''), (''project_id'', ''p2''),
            (''dataset'', ''d2''), (''session_id'', ''s1'')]) ''session_id'' = Some ''s1''
   \<and> active_runners (snd (query empty_server
          (mk_request ''Bearer tok'' [(''message'', ''hello''), (''project_id'', ''proj'')]) ''s1'')) ''s1''
       = Some \<lparr>entry_runner = new_runner ''tok'' ''proj'' None, entry_session = new_session ''s1'',
               entry_project_id = ''proj''\<rparr>
   \<and> query (snd (query empty_server
          (mk_request ''Bearer tok'' [(''message'', ''hello''), (''project_id'', ''proj'')]) ''s1''))
        (mk_request ''Bearer other'' [(''message'', ''again''), (''project_id'', ''p2''),
            (''dataset'', ''d2''), (''session_id'', ''s1'')]) ''s2''
       = (Inr (StreamingResponse ''s1'' (new_runner ''tok'' ''proj'' None) (new_session ''s1'')
                 (user_content ''again'')),
          snd (query empty_server
          (mk_request ''Bearer tok'' [(''message'', ''hello''), (''project_id'', ''proj'')]) ''s1''))"
proof -
  let ?req = "mk_request ''Bearer other'' [(''message'', ''again''), (''project_id'', ''p2''),
            (''dataset'', ''d2''), (''session_id'', ''s1'')]"
  let ?srv = "snd (query empty_server
          (mk_request ''Bearer tok'' [(''message'', ''hello''), (''project_id'', ''proj'')]) ''s1'')"
  let ?e = "\<lparr>entry_runner = new_runner ''tok'' ''proj'' None, entry_session = new_session ''s1'',
               entry_project_id = ''proj''\<rparr>"
  have b: "body ?req ''session_id'' = Some ''s1''"
    by (simp add: mk_request_def)
  have n: "''s1'' \<noteq> []" by simp
  have a: "active_runners ?srv ''s1'' = Some ?e"
    by (simp add: eval_defs)
  have t: "extract_token ?req = Inr ''other''"
    by (simp add: extract_token_def mk_request_def startswith_def)
  have m: "message_of ?req = ''again''"
    by (simp add: message_of_def mk_request_def strip_def isspace_def)
  have p: "body ?req ''project_id'' = Some ''p2''"
    by (simp add: mk_request_def)
  from session_reuse_keeps_entry [OF b n a, of "''s2''" "''other''" "''p2''"] t m p
  have "snd (query ?srv ?req ''s2'') = ?srv"
    and "fst (query ?srv ?req ''s2'') = Inr (StreamingResponse ''s1'' (new_runner ''tok'' ''proj'' None)
           (new_session ''s1'') (user_content ''again''))"
    by simp_all
  then have "query ?srv ?req ''s2'' = (Inr (StreamingResponse ''s1'' (new_runner ''tok'' ''proj'' None)
           (new_session ''s1'') (user_content ''again'')), ?srv)"
    by (metis prod.collapse)
  with b a show ?thesis by blast
qed


lemma get_or_create_keys:
  assumes "dom (active_runners srv) \<subseteq> dom (session_service srv)"
  shows "dom (active_runners (snd (get_or_create srv token pid dataset x new_id)))
           \<subseteq> dom (session_service (snd (get_or_create srv token pid dataset x new_id)))"
  using assms
  by (auto simp: get_or_create_def create_session_def Let_def split: option.splits)

lemma query_keys:
  assumes "dom (active_runners srv) \<subseteq> dom (session_service srv)"
  shows "dom (active_runners (snd (query srv request new_id)))
           \<subseteq> dom (session_service (snd (query srv request new_id)))"
proof (cases "\<exists>token pid. extract_token request = Inr token \<and> message_of request \<noteq> []
                  \<and> body request ''project_id'' = Some pid \<and> pid \<noteq> []")
  case True
  then obtain token pid where v: "extract_token request = Inr token" "message_of request \<noteq> []"
      "body request ''project_id'' = Some pid" "pid \<noteq> []"
    by blast
  have "snd (query srv request new_id)
        = snd (get_or_create srv token pid (body request ''dataset'') (body request ''session_id'') new_id)"
    unfolding query_valid [OF v] by (simp split: prod.splits)
  then show ?thesis
    using get_or_create_keys [OF assms] by simp
next
  case False
  then have "snd (query srv request new_id) = srv"
    by (auto simp: query_def Let_def split: sum.splits option.splits)
  then show ?thesis using assms by simp
qed

text \<open>
  Claim C6, as stated: after a reset the keys of the registry and the keys of the
  runtime's session service are the same. \<open>reset_session\<close> deletes from the registry
  only: after one turn and a reset of its session, the registry is empty and the session
  service still holds the session.
\<close>

theorem reset_keeps_service_session_counterexample:
  "dom (active_runners (snd (query empty_server
          (mk_request ''Bearer tok'' [(''message'', ''hello''), (''project_id'', ''proj'')]) ''s1'')))
     = {''s1''}
   \<and> dom (session_service (snd (query empty_server
          (mk_request ''Bearer tok'' [(''message'', ''hello''), (''project_id'', ''proj'')]) ''s1'')))
     = {''s1''}
   \<and> dom (active_runners (snd (reset_session (snd (query empty_server
          (mk_request ''Bearer tok'' [(''message'', ''hello''), (''project_id'', ''proj'')]) ''s1''))
          (mk_request [] [(''session_id'', ''s1'')]))))
     = {}
   \<and> dom (session_service (snd (reset_session (snd (query empty_server
          (mk_request ''Bearer tok'' [(''message'', ''hello''), (''project_id'', ''proj'')]) ''s1''))
          (mk_request [] [(''session_id'', ''s1'')]))))
     = {''s1''}"
  by (simp add: eval_defs)

text \<open>
  Claim C6, amended. A reset answers \<open>ok\<close>, leaves the session service as it was and
  leaves the registry without an entry for the session id given; every other entry
  stays. So the keys of the registry remain among the keys of the session service, after
  a reset and after a turn, and the registry holds at most one entry for an id.
\<close>

theorem reset_releases_registry_only:
  "fst (reset_session srv request) = True
   \<and> session_service (snd (reset_session srv request)) = session_service srv
   \<and> (body request ''session_id'' = Some sid \<and> sid \<noteq> [] \<longrightarrow>
        active_runners (snd (reset_session srv request)) sid = None)
   \<and> (\<forall>k. body request ''session_id'' \<noteq> Some k \<longrightarrow>
        active_runners (snd (reset_session srv request)) k = active_runners srv k)
   \<and> (dom (active_runners srv) \<subseteq> dom (session_service srv) \<longrightarrow>
        dom (active_runners (snd (reset_session srv request)))
          \<subseteq> dom (session_service (snd (reset_session srv request)))
        \<and> dom (active_runners (snd (query srv request new_id)))
          \<subseteq> dom (session_service (snd (query srv request new_id))))"
proof -
  have r: "reset_session srv request =
      (True, case registered srv (body request ''session_id'') of
               None \<Rightarrow> srv
             | Some (k, e) \<Rightarrow> srv\<lparr>active_runners := (active_runners srv)(k := None)\<rparr>)"
    by (simp add: reset_session_def split: option.splits)
  have a: "fst (reset_session srv request) = True"
    and b: "session_service (snd (reset_session srv request)) = session_service srv"
    by (simp_all add: r split: option.splits)
  have c: "active_runners (snd (reset_session srv request)) sid = None"
    if "body request ''session_id'' = Some sid" and "sid \<noteq> []"
    using that by (simp add: r split: option.splits)
  have d: "active_runners (snd (reset_session srv request)) k = active_runners srv k"
    if "body request ''session_id'' \<noteq> Some k" for k
    using that by (auto simp: r registered_Some split: option.splits)
  have e: "dom (active_runners (snd (reset_session srv request)))
          \<subseteq> dom (session_service (snd (reset_session srv request)))"
    if "dom (active_runners srv) \<subseteq> dom (session_service srv)"
    using that by (auto simp: r split: option.splits if_splits)
  from a b c d e query_keys [of srv request new_id] show ?thesis by blast
qed

theorem reset_releases_registry_only_witness:
  "body (mk_request [] [(''session_id'', ''s1'')]) ''session_id'' = Some ''s1''
   \<and> dom (active_runners (snd (query empty_server
          (mk_request ''Bearer tok'' [(''message'', ''hello''), (''project_id'', ''proj'')]) ''s1'')))
       \<subseteq> dom (session_service (snd (query empty_server
          (mk_request ''Bearer tok'' [(''message'', ''hello''), (''project_id'', ''proj'')]) ''s1'')))
   \<and> active_runners (snd (reset_session (snd (query empty_server
          (mk_request ''Bearer tok'' [(''message'', ''hello''), (''project_id'', ''proj'')]) ''s1''))
          (mk_request [] [(''session_id'', ''s1'')]))) ''s1'' = None
   \<and> session_service (snd (reset_session (snd (query empty_server
          (mk_request ''Bearer tok'' [(''message'', ''hello''), (''project_id'', ''proj'')]) ''s1''))
          (mk_request [] [(''session_id'', ''s1'')])))
       = session_service (snd (query empty_server
          (mk_request ''Bearer tok'' [(''message'', ''hello''), (''project_id'', ''proj'')]) ''s1''))
   \<and> dom (active_runners (snd (reset_session (snd (query empty_server
          (mk_request ''Bearer tok'' [(''message'', ''hello''), (''project_id'', ''proj'')]) ''s1''))
          (mk_request [] [(''session_id'', ''s1'')]))))
       \<subseteq> dom (session_service (snd (reset_session (snd (query empty_server
          (mk_request ''Bearer tok'' [(''message'', ''hello''), (''project_id'', ''proj'')]) ''s1''))
          (mk_request [] [(''session_id'', ''s1'')]))))"
proof -
  let ?srv = "snd (query empty_server
          (mk_request ''Bearer tok'' [(''message'', ''hello''), (''project_id'', ''proj'')]) ''s1'')"
  let ?req = "mk_request [] [(''session_id'', ''s1'')]"
  have b: "body ?req ''session_id'' = Some ''s1''"
    by (simp add: mk_request_def)
  have i: "dom (active_runners ?srv) \<subseteq> dom (session_service ?srv)"
    by (simp add: eval_defs)
  have n: "''s1'' \<noteq> []" by simp
  from reset_releases_registry_only [of ?srv ?req "''s1''" "''s2''"] b i n
  show ?thesis by blast
qed

section \<open>Properties of the discovery gateway\<close>

lemma extract_token_bearer: "extract_token (mk_request ''Bearer tok'' kvs) = Inr ''tok''"
  by (simp add: extract_token_def mk_request_def startswith_def)

lemma sort_a_B: "sort [''a'', ''B''] = [''B'', ''a'']"
  by code_simp

lemma unsorted_lower_B_a: "\<not> sorted (map lower [''B'', ''a''])"
  by code_simp

lemma comprehend_Inr: "comprehend f xs = Inr ys \<longleftrightarrow> map f xs = map Inr ys"
proof (induction xs arbitrary: ys)
  case Nil
  show ?case by auto
next
  case (Cons x xs)
  show ?case
  proof (cases "f x")
    case (Inl e)
    then show ?thesis by (cases ys) auto
  next
    case (Inr y)
    show ?thesis
    proof (cases "comprehend f xs")
      case (Inl e)
      with Cons.IH have "map f xs \<noteq> map Inr zs" for zs
        by (metis sum.distinct(1))
      with Inl Inr show ?thesis by (cases ys) auto
    next
      case r: (Inr zs)
      with Cons.IH [of zs] have m: "map f xs = map Inr zs" by simp
      then have "map f xs = map Inr zs' \<longleftrightarrow> zs = zs'" for zs'
        by (auto simp: inj_map_eq_map [OF inj_Inr])
      with r Inr show ?thesis by (cases ys) auto
    qed
  qed
qed

lemma list_projects_success:
  "list_projects request crm = Inr projects \<longleftrightarrow>
     (\<exists>token raw. extract_token request = Inr token \<and> status_code (crm token) = 200
        \<and> comprehend project_of (case resp_json (crm token) of None \<Rightarrow> [] | Some ps \<Rightarrow> ps) = Inr raw
        \<and> projects = sort_key (\<lambda>p. lower (proj_name p)) raw)"
  by (auto simp: list_projects_def Let_def split: sum.splits)

lemma list_datasets_success:
  "list_datasets request pid bq = Inr datasets \<longleftrightarrow>
     (\<exists>token raw. extract_token request = Inr token \<and> status_code (bq pid token) = 200
        \<and> comprehend dataset_of (case resp_json (bq pid token) of None \<Rightarrow> [] | Some ds \<Rightarrow> ds) = Inr raw
        \<and> datasets = sort raw)"
  by (auto simp: list_datasets_def Let_def split: sum.splits)

lemma stable_sort_key_iff:
  "ys = sort_key f xs \<longleftrightarrow>
     sorted (map f ys) \<and> mset ys = mset xs \<and> (\<forall>k. filter (\<lambda>x. f x = k) ys = filter (\<lambda>x. f x = k) xs)"
proof
  assume "ys = sort_key f xs"
  then show "sorted (map f ys) \<and> mset ys = mset xs \<and> (\<forall>k. filter (\<lambda>x. f x = k) ys = filter (\<lambda>x. f x = k) xs)"
    by (simp add: sort_key_stable)
next
  assume a: "sorted (map f ys) \<and> mset ys = mset xs \<and> (\<forall>k. filter (\<lambda>x. f x = k) ys = filter (\<lambda>x. f x = k) xs)"
  then have "filter (\<lambda>x. f k = f x) ys = filter (\<lambda>x. f k = f x) xs" for k
    by (metis (mono_tags, lifting) filter_cong)
  with a have "sort_key f xs = ys"
    by (intro properties_for_sort_key) auto
  then show "ys = sort_key f xs" by simp
qed

lemma sort_iff: "ys = sort xs \<longleftrightarrow> sorted ys \<and> mset ys = mset xs"
  using properties_for_sort [of ys xs] by auto

text \<open>
  Claim C8, as stated: both lists are sorted without regard to case. \<open>list_datasets\<close>
  sorts its ids with a plain \<open>sort()\<close>, by code points: the ids \<open>a\<close> and \<open>B\<close> come back
  as \<open>B\<close>, \<open>a\<close>, which is not in order once lowered.
\<close>

theorem datasets_case_sensitive_counterexample:
  "list_datasets (mk_request ''Bearer tok'' []) ''proj''
     (\<lambda>project_id token. upstream 200 [] (Some [dataset_entry ''a'', dataset_entry ''B'']))
     = Inr [''B'', ''a'']
   \<and> \<not> sorted (map lower [''B'', ''a''])"
  by (simp add: list_datasets_def extract_token_bearer upstream_def dataset_of_def dataset_entry_def
        sort_a_B unsorted_lower_B_a del: sort_key_simps sorted_wrt.simps list.map)

text \<open>
  Claim C8, amended. \<open>list_projects\<close> succeeds exactly when the token is there, the
  upstream status is 200 and every upstream entry yields a project; what it returns is
  then those projects, each as often as upstream gave it, sorted by display name lowered,
  with projects of equal lowered name in upstream order. \<open>list_datasets\<close> succeeds
  exactly when the token is there, the status is 200 and every entry yields an id; what
  it returns is then those ids, each as often as given, sorted as strings, code point by
  code point, upper case before lower case.
\<close>

theorem discovery_lists_sorted:
  "(list_projects request cloudresourcemanager = Inr projects \<longleftrightarrow>
      (\<exists>token raw. extract_token request = Inr token
         \<and> status_code (cloudresourcemanager token) = 200
         \<and> map project_of (case resp_json (cloudresourcemanager token) of None \<Rightarrow> [] | Some ps \<Rightarrow> ps)
             = map Inr raw
         \<and> sorted (map (\<lambda>p. lower (proj_name p)) projects)
         \<and> mset projects = mset raw
         \<and> (\<forall>k. filter (\<lambda>p. lower (proj_name p) = k) projects
                 = filter (\<lambda>p. lower (proj_name p) = k) raw)))
   \<and> (list_datasets request project_id bigquery = Inr datasets \<longleftrightarrow>
      (\<exists>token raw. extract_token request = Inr token
         \<and> status_code (bigquery project_id token) = 200
         \<and> map dataset_of (case resp_json (bigquery project_id token) of None \<Rightarrow> [] | Some ds \<Rightarrow> ds)
             = map Inr raw
         \<and> sorted datasets
         \<and> mset datasets = mset raw))"
  unfolding list_projects_success list_datasets_success comprehend_Inr
    stable_sort_key_iff [symmetric] sort_iff [symmetric]
  by simp

lemma map_Inr_inject: "map Inr xs = map Inr ys \<Longrightarrow> xs = ys"
  by (simp add: inj_map_eq_map)

lemma sort_key_three_projects:
  "sort_key (\<lambda>p. lower (proj_name p))
     [\<lparr>proj_id = ''p1'', proj_name = ''beta'', proj_number = None\<rparr>,
      \<lparr>proj_id = ''p2'', proj_name = ''ALPHA'', proj_number = None\<rparr>,
      \<lparr>proj_id = ''p3'', proj_name = ''alpha'', proj_number = None\<rparr>]
   = [\<lparr>proj_id = ''p2'', proj_name = ''ALPHA'', proj_number = None\<rparr>,
      \<lparr>proj_id = ''p3'', proj_name = ''alpha'', proj_number = None\<rparr>,
      \<lparr>proj_id = ''p1'', proj_name = ''beta'', proj_number = None\<rparr>]"
  by code_simp

lemma filter_alpha_three_projects:
  "filter (\<lambda>p. lower (proj_name p) = ''alpha'')
     [\<lparr>proj_id = ''p1'', proj_name = ''beta'', proj_number = None\<rparr>,
      \<lparr>proj_id = ''p2'', proj_name = ''ALPHA'', proj_number = None\<rparr>,
      \<lparr>proj_id = ''p3'', proj_name = ''alpha'', proj_number = None\<rparr>]
   = [\<lparr>proj_id = ''p2'', proj_name = ''ALPHA'', proj_number = None\<rparr>,
      \<lparr>proj_id = ''p3'', proj_name = ''alpha'', proj_number = None\<rparr>]"
  by code_simp

theorem discovery_lists_sorted_witness:
  "list_projects (mk_request ''Bearer tok'' [])
     (\<lambda>token. upstream 200 [] (Some [project_entry ''p1'' ''beta'', project_entry ''p2'' ''ALPHA'',
        project_entry ''p3'' ''alpha'']))
     = Inr [\<lparr>proj_id = ''p2'', proj_name = ''ALPHA'', proj_number = None\<rparr>,
            \<lparr>proj_id = ''p3'', proj_name = ''alpha'', proj_number = None\<rparr>,
            \<lparr>proj_id = ''p1'', proj_name = ''beta'', proj_number = None\<rparr>]
   \<and> sorted (map (\<lambda>p. lower (proj_name p))
        [\<lparr>proj_id = ''p2'', proj_name = ''ALPHA'', proj_number = None\<rparr>,
         \<lparr>proj_id = ''p3'', proj_name = ''alpha'', proj_number = None\<rparr>,
         \<lparr>proj_id = ''p1'', proj_name = ''beta'', proj_number = None\<rparr>])
   \<and> filter (\<lambda>p. lower (proj_name p) = ''alpha'')
        [\<lparr>proj_id = ''p2'', proj_name = ''ALPHA'', proj_number = None\<rparr>,
         \<lparr>proj_id = ''p3'', proj_name = ''alpha'', proj_number = None\<rparr>,
         \<lparr>proj_id = ''p1'', proj_name = ''beta'', proj_number = None\<rparr>]
       = [\<lparr>proj_id = ''p2'', proj_name = ''ALPHA'', proj_number = None\<rparr>,
          \<lparr>proj_id = ''p3'', proj_name = ''alpha'', proj_number = None\<rparr>]
   \<and> list_datasets (mk_request ''Bearer tok'' []) ''proj''
     (\<lambda>project_id token. upstream 200 [] (Some [dataset_entry ''a'', dataset_entry ''B'']))
     = Inr [''B'', ''a'']
   \<and> sorted [''B'', ''a''] \<and> mset [''B'', ''a''] = mset [''a'', ''B'']"
proof -
  let ?P1 = "\<lparr>proj_id = ''p1'', proj_name = ''beta'', proj_number = None\<rparr>"
  let ?P2 = "\<lparr>proj_id = ''p2'', proj_name = ''ALPHA'', proj_number = None\<rparr>"
  let ?P3 = "\<lparr>proj_id = ''p3'', proj_name = ''alpha'', proj_number = None\<rparr>"
  let ?crm = "\<lambda>token::string. upstream 200 [] (Some [project_entry ''p1'' ''beta'',
        project_entry ''p2'' ''ALPHA'', project_entry ''p3'' ''alpha''])"
  let ?bq = "\<lambda>(project_id::string) (token::string).
        upstream 200 [] (Some [dataset_entry ''a'', dataset_entry ''B''])"
  have p: "list_projects (mk_request ''Bearer tok'' []) ?crm = Inr [?P2, ?P3, ?P1]"
    by (simp add: list_projects_def extract_token_bearer upstream_def project_of_def
          project_entry_def sort_key_three_projects del: sort_key_simps)
  have d: "list_datasets (mk_request ''Bearer tok'' []) ''proj'' ?bq = Inr [''B'', ''a'']"
    by (simp add: list_datasets_def extract_token_bearer upstream_def dataset_of_def
          dataset_entry_def sort_a_B del: sort_key_simps)
  from discovery_lists_sorted [THEN conjunct1, THEN iffD1, OF p]
  obtain raw where
    m: "map project_of
          (case resp_json (upstream 200 [] (Some [project_entry ''p1'' ''beta'',
             project_entry ''p2'' ''ALPHA'', project_entry ''p3'' ''alpha''])) of
             None \<Rightarrow> [] | Some ps \<Rightarrow> ps) = map Inr raw"
    and so: "sorted (map (\<lambda>p. lower (proj_name p)) [?P2, ?P3, ?P1])"
    and st: "\<forall>k. filter (\<lambda>p. lower (proj_name p) = k) [?P2, ?P3, ?P1]
                 = filter (\<lambda>p. lower (proj_name p) = k) raw"
    by blast
  from m have "map Inr raw = (map Inr [?P1, ?P2, ?P3] :: (error + project) list)"
    by (simp add: upstream_def project_of_def project_entry_def)
  then have raw: "raw = [?P1, ?P2, ?P3]"
    by (rule map_Inr_inject)
  have fl: "filter (\<lambda>p. lower (proj_name p) = ''alpha'') [?P2, ?P3, ?P1] = [?P2, ?P3]"
    using st [unfolded raw, THEN spec, of "''alpha''"]
    by (simp only: filter_alpha_three_projects)
  from discovery_lists_sorted [THEN conjunct2, THEN iffD1, OF d]
  obtain raw' where
    m': "map dataset_of
           (case resp_json (upstream 200 [] (Some [dataset_entry ''a'', dataset_entry ''B''])) of
              None \<Rightarrow> [] | Some ds \<Rightarrow> ds) = map Inr raw'"
    and so': "sorted [''B'', ''a'']" and ms: "mset [''B'', ''a''] = mset raw'"
    by blast
  from m' have "map Inr raw' = (map Inr [''a'', ''B''] :: (error + string) list)"
    by (simp add: upstream_def dataset_of_def dataset_entry_def)
  then have raw': "raw' = [''a'', ''B'']"
    by (rule map_Inr_inject)
  from p so fl d so' ms [unfolded raw'] show ?thesis by blast
qed

text \<open>
  Claim C9, as stated: both endpoints map an upstream 403 to the distinct error about
  the token's scope. \<open>list_projects\<close> does; \<open>list_datasets\<close> has the one test
  \<open>status_code != 200\<close> and hands a 403 on with the upstream body, as it does any other
  failure.
\<close>

theorem datasets_forbidden_verbatim_counterexample:
  "list_projects (mk_request ''Bearer tok'' []) (\<lambda>token. upstream 403 ''denied'' None)
     = Inl (HTTPException 403 insufficient_scope)
   \<and> list_datasets (mk_request ''Bearer tok'' []) ''proj'' (\<lambda>project_id token. upstream 403 ''denied'' None)
     = Inl (HTTPException 403 ''denied'')
   \<and> list_datasets (mk_request ''Bearer tok'' []) ''proj'' (\<lambda>project_id token. upstream 403 ''denied'' None)
     \<noteq> Inl (HTTPException 403 insufficient_scope)"
  by (simp add: list_projects_def list_datasets_def extract_token_bearer upstream_def insufficient_scope_def)

text \<open>
  Claim C9, amended. With a bearer token in place, \<open>list_projects\<close> maps an upstream 403
  to the error about the token's scope and raises every other status but 200 with that
  status and the upstream body; \<open>list_datasets\<close> raises every status but 200, 403
  included, with that status and the upstream body.
\<close>

theorem upstream_failures_surfaced:
  assumes "extract_token request = Inr token"
  shows "(status_code (cloudresourcemanager token) = 403 \<longrightarrow>
            list_projects request cloudresourcemanager = Inl (HTTPException 403 insufficient_scope))
         \<and> (status_code (cloudresourcemanager token) \<noteq> 403
              \<and> status_code (cloudresourcemanager token) \<noteq> 200 \<longrightarrow>
            list_projects request cloudresourcemanager
              = Inl (HTTPException (status_code (cloudresourcemanager token))
                       (resp_text (cloudresourcemanager token))))
         \<and> (status_code (bigquery project_id token) \<noteq> 200 \<longrightarrow>
            list_datasets request project_id bigquery
              = Inl (HTTPException (status_code (bigquery project_id token))
                       (resp_text (bigquery project_id token))))"
  using assms by (simp add: list_projects_def list_datasets_def Let_def)

theorem upstream_failures_surfaced_witness:
  "extract_token (mk_request ''Bearer tok'' []) = Inr ''tok''
   \<and> list_projects (mk_request ''Bearer tok'' []) (\<lambda>token. upstream 403 ''denied'' None)
       = Inl (HTTPException 403 insufficient_scope)
   \<and> list_projects (mk_request ''Bearer tok'' []) (\<lambda>token. upstream 500 ''oops'' None)
       = Inl (HTTPException 500 ''oops'')
   \<and> list_datasets (mk_request ''Bearer tok'' []) ''proj'' (\<lambda>project_id token. upstream 404 ''no such project'' None)
       = Inl (HTTPException 404 ''no such project'')"
proof -
  have t: "extract_token (mk_request ''Bearer tok'' []) = Inr ''tok''"
    by (rule extract_token_bearer)
  from upstream_failures_surfaced [OF t, of "\<lambda>token. upstream 403 ''denied'' None"]
    upstream_failures_surfaced [OF t, of "\<lambda>token. upstream 500 ''oops'' None"
      "\<lambda>project_id token. upstream 404 ''no such project'' None" "''proj''"] t
  show ?thesis by (simp add: upstream_def)
qed

end
